theory Spec2Isabelle
  imports Main
begin

section \<open>Data model of the graph viewer (App.tsx, api.ts)\<close>

text \<open>
  \<^verbatim>\<open>type FilterId = 'public' | 'sink' | 'vuln'\<close>: a union of three string literals.
  \<open>filter_id_str\<close> gives the string each value is at run time.
\<close>

datatype FilterId = Public | Sink | Vuln

fun filter_id_str :: "FilterId \<Rightarrow> string" where
  "filter_id_str Public = ''public''"
| "filter_id_str Sink = ''sink''"
| "filter_id_str Vuln = ''vuln''"

text \<open>\<^verbatim>\<open>const FILTER_COLORS: Record<FilterId, string>\<close> (App.tsx, lines 13-17).\<close>

fun FILTER_COLORS :: "FilterId \<Rightarrow> string" where
  "FILTER_COLORS Public = ''#22c55e''"
| "FILTER_COLORS Sink = ''#3b82f6''"
| "FILTER_COLORS Vuln = ''#ef4444''"

text \<open>
  \<^verbatim>\<open>type GraphNode = { id: string; group: FilterId[] }\<close> and
  \<^verbatim>\<open>type GraphLink = { source: string; target: string }\<close>. The fields \<open>id\<close> and
  \<open>group\<close> are called \<open>node_id\<close> and \<open>node_group\<close>, since HOL has constants of
  those names.
\<close>

record GraphNode =
  node_id :: string
  node_group :: "FilterId list"

record GraphLink =
  source :: string
  target :: string

text \<open>The displayed graph \<^verbatim>\<open>{ nodes: GraphNode[]; links: GraphLink[] }\<close>.\<close>

record DisplayGraph =
  graph_nodes :: "GraphNode list"
  graph_links :: "GraphLink list"

definition empty_graph :: DisplayGraph where
  "empty_graph = \<lparr>graph_nodes = [], graph_links = []\<rparr>"

text \<open>
  \<^verbatim>\<open>type IntersectionResponse = { options: string[]; nodes: string[]; edges: [string, string][] }\<close>.
  The code reads \<open>nodes\<close> and \<open>edges\<close> through \<^verbatim>\<open>??\<close>, so both may be null or
  undefined at run time: \<open>None\<close> stands for either.
\<close>

record IntersectionResponse =
  options :: "string list"
  nodes :: "string list option"
  edges :: "(string \<times> string) list option"

text \<open>The nullish coalescing operator \<^verbatim>\<open>a ?? d\<close>.\<close>

fun nullish :: "'a option \<Rightarrow> 'a \<Rightarrow> 'a" where
  "nullish None d = d"
| "nullish (Some v) d = v"

subsection \<open>Thrown values and HTTP responses\<close>

text \<open>
  A value that a promise rejects with. The catch clause of \<open>apply\<close> only asks whether it
  is an \<open>Error\<close> instance (then it reads \<open>message\<close>) or not (then it takes
  \<open>String(e)\<close>), so a thrown value is one of the two, carrying that text.
\<close>

datatype thrown = ErrorObject string | OtherValue string

text \<open>\<^verbatim>\<open>e instanceof Error ? e.message : String(e)\<close> (App.tsx, line 40).\<close>

fun catch_message :: "thrown \<Rightarrow> string" where
  "catch_message (ErrorObject m) = m"
| "catch_message (OtherValue s) = s"

text \<open>
  What the code reads of a Fetch API response: its status, the body as \<open>r.text()\<close>
  gives it, and what \<open>r.json()\<close> settles with (the parsed body, or the rejection of
  the parser when the body is not JSON).
\<close>

record 'a response =
  status :: nat
  body_text :: string
  json :: "thrown + 'a"

text \<open>\<open>r.ok\<close>: the status is in the range 200-299.\<close>

definition ok :: "'a response \<Rightarrow> bool" where
  "ok r = (200 \<le> status r \<and> status r \<le> 299)"

text \<open>\<open>fetch(path)\<close> either rejects (a network error) or resolves with a response.\<close>

datatype 'a fetch_outcome = Rejected thrown | Resolved "'a response"

text \<open>
  The backend, as the client sees it: what a GET on a URL settles with. Every function
  that calls \<open>fetch\<close> returns, next to its result, the list of the URLs it requested.
\<close>

type_synonym 'a api = "string \<Rightarrow> 'a fetch_outcome"

definition fetch :: "'a api \<Rightarrow> string \<Rightarrow> 'a fetch_outcome \<times> string list" where
  "fetch api path = (api path, [path])"

section \<open>api.ts\<close>

definition API_BASE :: string where
  "API_BASE = ''/api''"

text \<open>
  \<^verbatim>\<open>
  async function fetchJson<T>(path: string): Promise<T> {
    const r = await fetch(path);
    if (!r.ok) throw new Error(await r.text());
    return r.json();
  }
  \<close>
  \<open>Inl\<close> is a rejection of the returned promise.
\<close>

definition fetchJson :: "'a api \<Rightarrow> string \<Rightarrow> (thrown + 'a) \<times> string list" where
  "fetchJson api path =
     (case fetch api path of
        (Rejected e, reqs) \<Rightarrow> (Inl e, reqs)
      | (Resolved r, reqs) \<Rightarrow>
          if \<not> ok r then (Inl (ErrorObject (body_text r)), reqs)
          else (json r, reqs))"

text \<open>
  \<open>encodeURIComponent\<close> on a string held as its UTF-8 bytes: the unreserved characters
  (letters, digits and \<^verbatim>\<open>- _ . ! ~ * ' ( )\<close>) stay, every other byte becomes
  \<^verbatim>\<open>%XX\<close> with upper-case hexadecimal digits.
\<close>

definition uri_unreserved :: "char \<Rightarrow> bool" where
  "uri_unreserved c =
     (c \<in> set (''ABCDEFGHIJKLMNOPQRSTUVWXYZabcdefghijklmnopqrstuvwxyz0123456789-_.!~*()''
               @ [CHR 0x27]))"

definition hex_digit :: "nat \<Rightarrow> char" where
  "hex_digit n = ''0123456789ABCDEF'' ! (n mod 16)"

definition percent_encode :: "char \<Rightarrow> string" where
  "percent_encode c =
     [CHR ''%'', hex_digit ((of_char c :: nat) div 16), hex_digit ((of_char c :: nat) mod 16)]"

definition encodeURIComponent :: "string \<Rightarrow> string" where
  "encodeURIComponent s =
     concat (map (\<lambda>c. if uri_unreserved c then [c] else percent_encode c) s)"

text \<open>\<open>Array.prototype.join\<close> on an array of strings.\<close>

fun join :: "string \<Rightarrow> string list \<Rightarrow> string" where
  "join sep [] = []"
| "join sep [x] = x"
| "join sep (x # y # ys) = x @ sep @ join sep (y # ys)"

text \<open>
  \<^verbatim>\<open>
  export async function fetchIntersection(options: string[] = []) {
    const params = options.length
      ? '?' + options.map((o) => `options=${encodeURIComponent(o)}`).join('&')
      : '';
    return fetchJson<IntersectionResponse>(`${API_BASE}/intersection${params}`);
  }
  \<close>
  \<open>intersection_params\<close> is the constant \<open>params\<close>.
\<close>

definition intersection_params :: "string list \<Rightarrow> string" where
  "intersection_params opts =
     (if length opts \<noteq> 0
      then ''?'' @ join ''&'' (map (\<lambda>opt. ''options='' @ encodeURIComponent opt) opts)
      else '''')"

definition fetchIntersection ::
  "IntersectionResponse api \<Rightarrow> string list \<Rightarrow> (thrown + IntersectionResponse) \<times> string list"
where
  "fetchIntersection api opts =
     fetchJson api (API_BASE @ ''/intersection'' @ intersection_params opts)"

section \<open>App.tsx\<close>

subsection \<open>A JavaScript \<open>Set\<close>\<close>

text \<open>
  A \<open>Set\<close> iterates in insertion order, and \<open>Array.from(selected)\<close> reads that order, so
  a set is the list of its elements in insertion order, without repetition.
\<close>

type_synonym 'a js_set = "'a list"

definition set_has :: "'a js_set \<Rightarrow> 'a \<Rightarrow> bool" where
  "set_has s x = (x \<in> set s)"

definition set_delete :: "'a js_set \<Rightarrow> 'a \<Rightarrow> 'a js_set" where
  "set_delete s x = filter (\<lambda>y. y \<noteq> x) s"

definition set_add :: "'a js_set \<Rightarrow> 'a \<Rightarrow> 'a js_set" where
  "set_add s x = (if x \<in> set s then s else s @ [x])"

definition array_from :: "'a js_set \<Rightarrow> 'a list" where
  "array_from s = s"

subsection \<open>The state of the component\<close>

text \<open>
  The four \<open>useState\<close> cells of \<open>App\<close> that the claims are about, and \<open>requests\<close>: the
  URLs of the GET requests issued so far (the effect of \<open>fetch\<close> on the world, kept
  with the state so that it can be stated). The cell \<open>graph\<close> is called \<open>graph_st\<close>:
  HOL has a constant \<open>graph\<close>.
\<close>

record app =
  selected :: "FilterId js_set"
  graph_st :: DisplayGraph
  loading :: bool
  error :: "string option"
  requests :: "string list"

definition initial_app :: app where
  "initial_app =
     \<lparr>selected = [], graph_st = empty_graph, loading = False, error = None, requests = []\<rparr>"

text \<open>
  \<^verbatim>\<open>
  const toggle = (id: FilterId) => {
    setSelected(prev => {
      const next = new Set(prev)
      if (next.has(id)) next.delete(id)
      else next.add(id)
      return next
    })
  }
  \<close>
\<close>

definition toggle_selected :: "FilterId js_set \<Rightarrow> FilterId \<Rightarrow> FilterId js_set" where
  "toggle_selected prev i = (if set_has prev i then set_delete prev i else set_add prev i)"

definition toggle :: "FilterId \<Rightarrow> app \<Rightarrow> app" where
  "toggle i w = w\<lparr>selected := toggle_selected (selected w) i\<rparr>"

text \<open>One \<open>toggle\<close> after the other, in the order of the list.\<close>

fun toggle_each :: "FilterId list \<Rightarrow> app \<Rightarrow> app" where
  "toggle_each [] w = w"
| "toggle_each (i # rest) w = toggle_each rest (toggle i w)"

text \<open>
  \<^verbatim>\<open>
  const nodeColor = (node: GraphNode) => {
    const groups = node.group as FilterId[]
    if (groups.length === 0) return '#94a3b8' // full graph
    if (groups.length === 1) return FILTER_COLORS[groups[0]]
    return '#a855f7' // purple for multiple filters (intersection)
  }
  \<close>
\<close>

definition nodeColor :: "GraphNode \<Rightarrow> string" where
  "nodeColor node =
     (let groups = node_group node in
      if length groups = 0 then ''#94a3b8''
      else if length groups = 1 then FILTER_COLORS (groups ! 0)
      else ''#a855f7'')"

text \<open>
  The body of \<open>apply\<close> (App.tsx, lines 30-45):
  \<^verbatim>\<open>
    setLoading(true)
    setError(null)
    try {
      const options = Array.from(selected) as string[]
      const r = await fetchIntersection(options)
      const nodes = (r.nodes ?? []).map((id) => ({ id, group: options as FilterId[] }))
      const links = (r.edges ?? []).map(([source, target]) => ({ source, target }))
      setGraph({ nodes, links })
    } catch (e) {
      setError(e instanceof Error ? e.message : String(e))
      setGraph({ nodes: [], links: [] })
    } finally {
      setLoading(false)
    }
  \<close>
  \<open>adapt\<close> is lines 36-37, the two \<open>map\<close> calls on the response.
\<close>

definition adapt :: "IntersectionResponse \<Rightarrow> FilterId list \<Rightarrow> DisplayGraph" where
  "adapt r opts =
     \<lparr>graph_nodes = map (\<lambda>i. \<lparr>node_id = i, node_group = opts\<rparr>) (nullish (nodes r) []),
      graph_links = map (\<lambda>(s, t). \<lparr>source = s, target = t\<rparr>) (nullish (edges r) [])\<rparr>"

text \<open>
  The state while the request is in flight: lines 31-32 have run, and \<open>fetch\<close> has been
  called with the URL made from the selection.
\<close>

definition apply_pending :: "string list \<Rightarrow> app \<Rightarrow> app" where
  "apply_pending reqs w = w\<lparr>loading := True, error := None, requests := requests w @ reqs\<rparr>"

text \<open>
  What happens when the awaited promise settles, on the state of that moment: the rest
  of the \<open>try\<close> block or the \<open>catch\<close> block, then \<open>finally\<close>.
\<close>

definition apply_settle :: "FilterId list \<Rightarrow> thrown + IntersectionResponse \<Rightarrow> app \<Rightarrow> app" where
  "apply_settle opts res w =
     (case res of
        Inr r \<Rightarrow> w\<lparr>graph_st := adapt r opts\<rparr>
      | Inl e \<Rightarrow> w\<lparr>error := Some (catch_message e), graph_st := empty_graph\<rparr>)
     \<lparr>loading := False\<rparr>"

text \<open>One whole cycle of \<open>apply\<close>, with nothing else happening in between.\<close>

definition apply_cycle :: "IntersectionResponse api \<Rightarrow> app \<Rightarrow> app" where
  "apply_cycle api w =
     (let opts = array_from (selected w);
          (res, reqs) = fetchIntersection api (map filter_id_str opts)
      in apply_settle opts res (apply_pending reqs w))"


subsection \<open>Names used in the statements\<close>

text \<open>
  The URL that \<open>apply\<close> requests for a selection: the argument that \<open>fetchIntersection\<close>
  hands to \<open>fetchJson\<close> when its options are the strings of the selection.
\<close>

definition request_url :: "FilterId list \<Rightarrow> string" where
  "request_url sel = API_BASE @ ''/intersection'' @ intersection_params (map filter_id_str sel)"

text \<open>A backend that settles every request the same way (a simulated response).\<close>

definition constant_api :: "'a fetch_outcome \<Rightarrow> 'a api" where
  "constant_api out path = out"

text \<open>The two phases of the controller, read off the loading flag.\<close>

datatype phase = Idle | Loading

definition phase_of :: "app \<Rightarrow> phase" where
  "phase_of w = (if loading w then Loading else Idle)"

text \<open>
  Simulated responses and a state with a graph on display, for the concrete instances:
  a failure with body \<open>boom\<close>, a success whose body is not JSON (so that \<open>r.json()\<close>
  rejects), the success of the specification's example, a success without \<open>nodes\<close> and
  one without \<open>edges\<close>.
\<close>

definition boom_response :: "IntersectionResponse response" where
  "boom_response =
     \<lparr>status = 500, body_text = ''boom'', json = Inl (ErrorObject ''Unexpected token b'')\<rparr>"

definition html_response :: "IntersectionResponse response" where
  "html_response =
     \<lparr>status = 200, body_text = ''<!doctype html>'',
      json = Inl (ErrorObject ''Unexpected token <'')\<rparr>"

definition example_response :: "IntersectionResponse response" where
  "example_response =
     \<lparr>status = 200, body_text = ''{}'',
      json = Inr \<lparr>options = [''public''], nodes = Some [''a'', ''b''],
                  edges = Some [(''a'', ''b'')]\<rparr>\<rparr>"

definition partial_response :: "IntersectionResponse response" where
  "partial_response =
     \<lparr>status = 200, body_text = ''{}'',
      json = Inr \<lparr>options = [], nodes = None, edges = Some [(''a'', ''b'')]\<rparr>\<rparr>"

definition nodes_only_response :: "IntersectionResponse response" where
  "nodes_only_response =
     \<lparr>status = 200, body_text = ''{}'',
      json = Inr \<lparr>options = [], nodes = Some [''a''], edges = None\<rparr>\<rparr>"

definition stale_app :: app where
  "stale_app =
     \<lparr>selected = [Public],
      graph_st = \<lparr>graph_nodes = [\<lparr>node_id = ''old'', node_group = [Public]\<rparr>], graph_links = []\<rparr>,
      loading = False, error = None, requests = [''/api/intersection?options=public'']\<rparr>"

section \<open>Helper lemmas\<close>

lemma encodeURIComponent_filter_id [simp]:
  "encodeURIComponent (filter_id_str f) = filter_id_str f"
  by (cases f) (simp_all add: encodeURIComponent_def uri_unreserved_def)

lemma set_toggle_selected:
  "set (toggle_selected s f) = (if f \<in> set s then set s - {f} else insert f (set s))"
  by (auto simp: toggle_selected_def set_has_def set_delete_def set_add_def)

lemma distinct_toggle_selected: "distinct s \<Longrightarrow> distinct (toggle_selected s f)"
  by (auto simp: toggle_selected_def set_has_def set_delete_def set_add_def)

lemma selected_toggle [simp]: "selected (toggle f w) = toggle_selected (selected w) f"
  by (simp add: toggle_def)

lemma toggle_selected_fresh: "f \<notin> set s \<Longrightarrow> toggle_selected s f = s @ [f]"
  by (simp add: toggle_selected_def set_has_def set_add_def)

lemma selected_toggle_each_fresh:
  "distinct xs \<Longrightarrow> set (selected w) \<inter> set xs = {} \<Longrightarrow>
   selected (toggle_each xs w) = selected w @ xs"
proof (induction xs arbitrary: w)
  case Nil
  then show ?case by simp
next
  case (Cons x xs)
  have fresh: "x \<notin> set (selected w)" using Cons.prems(2) by auto
  have "selected (toggle_each xs (toggle x w)) = selected (toggle x w) @ xs"
  proof (rule Cons.IH)
    show "distinct xs" using Cons.prems(1) by simp
    show "set (selected (toggle x w)) \<inter> set xs = {}"
      using Cons.prems fresh by (auto simp: toggle_selected_fresh)
  qed
  then show ?case using fresh by (simp add: toggle_selected_fresh)
qed

lemma fetchJson_requests [simp]: "snd (fetchJson api path) = [path]"
  by (simp add: fetchJson_def fetch_def split: fetch_outcome.splits)

lemma fetchJson_rejected:
  "api path = Rejected e \<Longrightarrow> fst (fetchJson api path) = Inl e"
  by (simp add: fetchJson_def fetch_def)

lemma fetchJson_resolved:
  "api path = Resolved r \<Longrightarrow>
   fst (fetchJson api path) = (if ok r then json r else Inl (ErrorObject (body_text r)))"
  by (simp add: fetchJson_def fetch_def)

lemma intersection_params_filter_ids:
  "intersection_params (map filter_id_str sel) =
     (if sel = [] then '''' else ''?'' @ join ''&'' (map (\<lambda>f. ''options='' @ filter_id_str f) sel))"
  by (simp add: intersection_params_def comp_def)

lemma apply_cycle_unfold:
  "apply_cycle api w =
     apply_settle (selected w) (fst (fetchJson api (request_url (selected w))))
       (apply_pending [request_url (selected w)] w)"
  by (simp add: apply_cycle_def array_from_def fetchIntersection_def request_url_def
      Let_def split_beta)

lemma selected_apply_cycle [simp]: "selected (apply_cycle api w) = selected w"
  by (simp add: apply_cycle_unfold apply_settle_def apply_pending_def split: sum.splits)


lemma two_or_more_filters:
  "{S :: FilterId set. 2 \<le> card S} =
     {{Public, Sink}, {Public, Vuln}, {Sink, Vuln}, {Public, Sink, Vuln}}"
proof -
  have U: "(UNIV :: FilterId set) = {Public, Sink, Vuln}"
    using FilterId.exhaust by auto
  have "S \<in> Pow {Public, Sink, Vuln}" for S :: "FilterId set" using U by auto
  then have cases: "S \<in> {{}, {Public}, {Sink}, {Vuln}, {Public, Sink}, {Public, Vuln},
      {Sink, Vuln}, {Public, Sink, Vuln}}" for S :: "FilterId set"
    unfolding Pow_insert Pow_empty by (auto simp: insert_commute)
  show ?thesis
  proof (rule set_eqI)
    fix S :: "FilterId set"
    show "S \<in> {S. 2 \<le> card S} \<longleftrightarrow>
          S \<in> {{Public, Sink}, {Public, Vuln}, {Sink, Vuln}, {Public, Sink, Vuln}}"
      using cases [of S] by auto
  qed
qed

lemma graph_apply_cycle:
  "graph_st (apply_cycle api w) =
     (case fst (fetchJson api (request_url (selected w))) of
        Inr r \<Rightarrow> adapt r (selected w)
      | Inl e \<Rightarrow> empty_graph)"
  by (simp add: apply_cycle_unfold apply_settle_def apply_pending_def split: sum.splits)

lemma error_apply_cycle:
  "error (apply_cycle api w) =
     (case fst (fetchJson api (request_url (selected w))) of
        Inr r \<Rightarrow> None
      | Inl e \<Rightarrow> Some (catch_message e))"
  by (simp add: apply_cycle_unfold apply_settle_def apply_pending_def split: sum.splits)

lemma fetchIntersection_request_url:
  "fetchIntersection api (map filter_id_str sel) = fetchJson api (request_url sel)"
  by (simp add: fetchIntersection_def request_url_def)

lemma filter_ids_UNIV: "(UNIV :: FilterId set) = {Public, Sink, Vuln}"
  using FilterId.exhaust by auto

lemma FILTER_COLORS_inj: "FILTER_COLORS x = FILTER_COLORS y \<Longrightarrow> x = y"
  by (cases x; cases y) simp_all

lemma FILTER_COLORS_not_fixed: "FILTER_COLORS x \<noteq> ''#94a3b8'' \<and> FILTER_COLORS x \<noteq> ''#a855f7''"
  by (cases x) simp_all

text \<open>
  The selection never holds an element twice, and every node that \<open>apply\<close> displays carries
  the selection of that moment as its group: the groups on display are repetition-free.
\<close>

lemma distinct_selected_toggle_each:
  "distinct (selected w) \<Longrightarrow> distinct (selected (toggle_each xs w))"
  by (induction xs arbitrary: w) (simp_all add: distinct_toggle_selected)

lemma node_group_apply_cycle:
  "n \<in> set (graph_nodes (graph_st (apply_cycle api w))) \<Longrightarrow> node_group n = selected w"
  by (auto simp: graph_apply_cycle adapt_def empty_graph_def split: sum.splits)

text \<open>
  What a request settles with depends on the backend's answer for its URL only, and on
  repetition-free groups the colour of a node depends on the members of the group only.
\<close>

lemma fetchJson_same_answer:
  "api p = api q \<Longrightarrow> fst (fetchJson api p) = fst (fetchJson api q)"
  by (simp add: fetchJson_def fetch_def split: fetch_outcome.splits)

lemma nodeColor_same_members:
  assumes "distinct g" and "distinct h" and "set g = set h"
  shows "nodeColor \<lparr>node_id = i, node_group = g\<rparr> = nodeColor \<lparr>node_id = i, node_group = h\<rparr>"
proof -
  have "card (set g) = length g" and "card (set h) = length h"
    using assms(1,2) by (simp_all add: distinct_card)
  then have len: "length g = length h"
    using assms(3) by simp
  show ?thesis
  proof (cases g)
    case Nil
    then show ?thesis using len by (simp add: nodeColor_def)
  next
    case (Cons x xs)
    note g = this
    show ?thesis
    proof (cases xs)
      case Nil
      then obtain y where h: "h = [y]"
        using len g by (cases h) auto
      then have "y = x" using assms(3) g Nil by simp
      then show ?thesis using g Nil h by (simp add: nodeColor_def)
    next
      case (Cons z zs)
      then have "2 \<le> length g" and "2 \<le> length h"
        using g len by simp_all
      then show ?thesis by (auto simp: nodeColor_def Let_def)
    qed
  qed
qed

section \<open>The claims\<close>

text \<open>
  C1. The adapter step of \<open>apply\<close> turns the \<open>k\<close>-th entry of \<open>result.nodes\<close> into the
  \<open>k\<close>-th display node, whose id is that identifier and whose group is the whole list of
  requested filters, and the \<open>k\<close>-th edge pair into the \<open>k\<close>-th link, with source and
  target taken from the pair. The output lists are as long as the input lists: nothing is
  dropped, merged or checked, whatever the identifiers are. For the result with nodes
  \<open>a\<close>, \<open>b\<close> and the edge \<open>(a, b)\<close>, requested with \<open>public\<close>, the output is the one the
  specification gives. A successful cycle of \<open>apply\<close> displays exactly this graph.
\<close>

theorem adapt_maps_each_entry_in_order:
  "length (graph_nodes (adapt r fs)) = length (nullish (nodes r) []) \<and>
   (\<forall>k < length (nullish (nodes r) []).
      graph_nodes (adapt r fs) ! k = \<lparr>node_id = nullish (nodes r) [] ! k, node_group = fs\<rparr>) \<and>
   length (graph_links (adapt r fs)) = length (nullish (edges r) []) \<and>
   (\<forall>k < length (nullish (edges r) []).
      graph_links (adapt r fs) ! k =
        \<lparr>source = fst (nullish (edges r) [] ! k), target = snd (nullish (edges r) [] ! k)\<rparr>) \<and>
   adapt \<lparr>options = os, nodes = Some [''a'', ''b''], edges = Some [(''a'', ''b'')]\<rparr> [Public] =
     \<lparr>graph_nodes = [\<lparr>node_id = ''a'', node_group = [Public]\<rparr>,
                     \<lparr>node_id = ''b'', node_group = [Public]\<rparr>],
      graph_links = [\<lparr>source = ''a'', target = ''b''\<rparr>]\<rparr> \<and>
   (fst (fetchIntersection api (map filter_id_str (selected w))) = Inr r \<longrightarrow>
      graph_st (apply_cycle api w) = adapt r (selected w))"
proof -
  have links: "graph_links (adapt r fs) ! k =
      \<lparr>source = fst (nullish (edges r) [] ! k), target = snd (nullish (edges r) [] ! k)\<rparr>"
    if "k < length (nullish (edges r) [])" for k
    using that by (simp add: adapt_def split_beta)
  have cycle: "graph_st (apply_cycle api w) = adapt r (selected w)"
    if "fst (fetchIntersection api (map filter_id_str (selected w))) = Inr r"
    using that by (simp add: graph_apply_cycle fetchIntersection_request_url)
  show ?thesis
    using links cycle by (simp add: adapt_def)
qed

theorem adapt_maps_each_entry_in_order_witness:
  "graph_nodes (adapt \<lparr>options = [], nodes = Some [''a'', ''a''], edges = Some [(''x'', ''y'')]\<rparr>
      [Public, Sink]) ! 1 = \<lparr>node_id = ''a'', node_group = [Public, Sink]\<rparr> \<and>
   length (graph_nodes (adapt \<lparr>options = [], nodes = Some [''a'', ''a''],
      edges = Some [(''x'', ''y'')]\<rparr> [Public, Sink])) = 2 \<and>
   graph_links (adapt \<lparr>options = [], nodes = Some [''a'', ''a''], edges = Some [(''x'', ''y'')]\<rparr>
      [Public, Sink]) ! 0 = \<lparr>source = ''x'', target = ''y''\<rparr> \<and>
   graph_st (apply_cycle (constant_api (Resolved example_response)) stale_app) =
     \<lparr>graph_nodes = [\<lparr>node_id = ''a'', node_group = [Public]\<rparr>,
                     \<lparr>node_id = ''b'', node_group = [Public]\<rparr>],
      graph_links = [\<lparr>source = ''a'', target = ''b''\<rparr>]\<rparr>"
proof -
  have f: "fst (fetchIntersection (constant_api (Resolved example_response))
        (map filter_id_str (selected stale_app))) =
      Inr \<lparr>options = [''public''], nodes = Some [''a'', ''b''], edges = Some [(''a'', ''b'')]\<rparr>"
    by (simp add: fetchIntersection_def fetchJson_def fetch_def constant_api_def
        example_response_def ok_def)
  have s: "selected stale_app = [Public]"
    by (simp add: stale_app_def)
  show ?thesis
    using f s
      adapt_maps_each_entry_in_order
        [of "\<lparr>options = [], nodes = Some [''a'', ''a''], edges = Some [(''x'', ''y'')]\<rparr>"
            "[Public, Sink]"]
      adapt_maps_each_entry_in_order
        [of "\<lparr>options = [''public''], nodes = Some [''a'', ''b''],
               edges = Some [(''a'', ''b'')]\<rparr>"
            _ "[''public'']" "constant_api (Resolved example_response)" stale_app]
    by simp
qed

text \<open>
  C2. A cycle of \<open>apply\<close> that fails ends with the error set to the text of the failure
  and with the empty graph on display, whatever was displayed before. When \<open>fetch\<close>
  rejects (a network error), the text is the message of the thrown error; when the
  response has a status outside 200-299, it is the body text of the response, so the body
  \<open>boom\<close> gives the error \<open>boom\<close>. The same holds for every other rejection of the
  awaited promise.
\<close>

theorem apply_failure_sets_error_and_empties_graph:
  "(api (request_url (selected w)) = Rejected e \<longrightarrow>
      error (apply_cycle api w) = Some (catch_message e) \<and>
      graph_st (apply_cycle api w) = empty_graph) \<and>
   (api (request_url (selected w)) = Resolved r \<and> \<not> ok r \<longrightarrow>
      error (apply_cycle api w) = Some (body_text r) \<and>
      graph_st (apply_cycle api w) = empty_graph) \<and>
   (fst (fetchIntersection api (map filter_id_str (selected w))) = Inl e \<longrightarrow>
      error (apply_cycle api w) = Some (catch_message e) \<and>
      graph_st (apply_cycle api w) = empty_graph)"
  by (simp add: error_apply_cycle graph_apply_cycle fetchIntersection_request_url
      fetchJson_rejected fetchJson_resolved)

theorem apply_failure_sets_error_and_empties_graph_witness:
  "\<not> ok boom_response \<and>
   graph_st stale_app \<noteq> empty_graph \<and>
   error (apply_cycle (constant_api (Resolved boom_response)) stale_app) = Some ''boom'' \<and>
   graph_st (apply_cycle (constant_api (Resolved boom_response)) stale_app) = empty_graph \<and>
   error (apply_cycle (constant_api (Rejected (ErrorObject ''Failed to fetch''))) stale_app) =
     Some ''Failed to fetch'' \<and>
   graph_st (apply_cycle (constant_api (Rejected (ErrorObject ''Failed to fetch''))) stale_app) =
     empty_graph"
proof -
  have bad: "\<not> ok boom_response"
    by (simp add: ok_def boom_response_def)
  have stale: "graph_st stale_app \<noteq> empty_graph"
    by (simp add: stale_app_def empty_graph_def)
  show ?thesis
    using bad stale
      apply_failure_sets_error_and_empties_graph
        [of "constant_api (Resolved boom_response)" stale_app _ boom_response]
      apply_failure_sets_error_and_empties_graph
        [of "constant_api (Rejected (ErrorObject ''Failed to fetch''))" stale_app
            "ErrorObject ''Failed to fetch''"]
    by (simp add: constant_api_def boom_response_def)
qed

text \<open>
  C3. The colour of a node is a function of its tag set. For a group without repetition
  (the groups that \<open>apply\<close> produces, see \<open>node_group_apply_cycle\<close>): the empty set has
  the neutral colour \<^verbatim>\<open>#94a3b8\<close>; a singleton \<open>{x}\<close> has the colour \<open>FILTER_COLORS x\<close>;
  a set of two or more filters has the colour \<^verbatim>\<open>#a855f7\<close>. The three filter colours differ
  from one another and from the two fixed colours. There are exactly four sets of two or
  more filters, and every set of filters is the set of a repetition-free group, so the
  three cases cover the power set.
\<close>

theorem nodeColor_rule:
  "distinct (node_group n) \<Longrightarrow>
   (set (node_group n) = {} \<longrightarrow> nodeColor n = ''#94a3b8'') \<and>
   (set (node_group n) = {x} \<longrightarrow> nodeColor n = FILTER_COLORS x) \<and>
   (2 \<le> card (set (node_group n)) \<longrightarrow> nodeColor n = ''#a855f7'') \<and>
   (FILTER_COLORS x = FILTER_COLORS y \<longrightarrow> x = y) \<and>
   FILTER_COLORS x \<noteq> ''#94a3b8'' \<and> FILTER_COLORS x \<noteq> ''#a855f7'' \<and>
   {S :: FilterId set. 2 \<le> card S} =
     {{Public, Sink}, {Public, Vuln}, {Sink, Vuln}, {Public, Sink, Vuln}} \<and>
   (\<exists>g. distinct g \<and> set g = (S :: FilterId set))"
proof -
  assume d: "distinct (node_group n)"
  then have len: "card (set (node_group n)) = length (node_group n)"
    by (rule distinct_card)
  have none: "nodeColor n = ''#94a3b8''" if "set (node_group n) = {}"
    using that by (simp add: nodeColor_def)
  have one: "nodeColor n = FILTER_COLORS x" if s: "set (node_group n) = {x}"
  proof -
    have "length (node_group n) = 1" using len s by simp
    then obtain z where z: "node_group n = [z]"
      by (cases "node_group n") auto
    then have "z = x" using s by simp
    then show ?thesis using z by (simp add: nodeColor_def)
  qed
  have many: "nodeColor n = ''#a855f7''" if "2 \<le> card (set (node_group n))"
    using that len by (auto simp: nodeColor_def Let_def)
  have "finite (UNIV :: FilterId set)"
    unfolding filter_ids_UNIV by simp
  then have "finite S"
    by (rule finite_subset [OF subset_UNIV])
  then have ex: "\<exists>g. distinct g \<and> set g = S"
    using finite_distinct_list [of S] by blast
  show ?thesis
    using none one many ex FILTER_COLORS_inj [of x y] FILTER_COLORS_not_fixed [of x]
      two_or_more_filters
    by blast
qed

theorem nodeColor_rule_witness:
  "nodeColor \<lparr>node_id = ''a'', node_group = []\<rparr> = ''#94a3b8'' \<and>
   nodeColor \<lparr>node_id = ''a'', node_group = [Public]\<rparr> = ''#22c55e'' \<and>
   nodeColor \<lparr>node_id = ''a'', node_group = [Sink]\<rparr> = ''#3b82f6'' \<and>
   nodeColor \<lparr>node_id = ''a'', node_group = [Vuln]\<rparr> = ''#ef4444'' \<and>
   nodeColor \<lparr>node_id = ''a'', node_group = [Public, Sink]\<rparr> = ''#a855f7'' \<and>
   nodeColor \<lparr>node_id = ''a'', node_group = [Public, Vuln]\<rparr> = ''#a855f7'' \<and>
   nodeColor \<lparr>node_id = ''a'', node_group = [Sink, Vuln]\<rparr> = ''#a855f7'' \<and>
   nodeColor \<lparr>node_id = ''a'', node_group = [Public, Sink, Vuln]\<rparr> = ''#a855f7''"
  using nodeColor_rule [of "\<lparr>node_id = ''a'', node_group = []\<rparr>"]
    nodeColor_rule [of "\<lparr>node_id = ''a'', node_group = [Public]\<rparr>" Public]
    nodeColor_rule [of "\<lparr>node_id = ''a'', node_group = [Sink]\<rparr>" Sink]
    nodeColor_rule [of "\<lparr>node_id = ''a'', node_group = [Vuln]\<rparr>" Vuln]
    nodeColor_rule [of "\<lparr>node_id = ''a'', node_group = [Public, Sink]\<rparr>"]
    nodeColor_rule [of "\<lparr>node_id = ''a'', node_group = [Public, Vuln]\<rparr>"]
    nodeColor_rule [of "\<lparr>node_id = ''a'', node_group = [Sink, Vuln]\<rparr>"]
    nodeColor_rule [of "\<lparr>node_id = ''a'', node_group = [Public, Sink, Vuln]\<rparr>"]
  by simp

text \<open>
  C4. From the empty selection, one \<open>toggle\<close> for each element of a repetition-free list
  \<open>xs\<close> leaves exactly the elements of \<open>xs\<close> selected; any other order \<open>ys\<close> of the same
  elements leaves the same set selected. (The selection is compared as a set, by its
  members.)
\<close>

theorem toggle_each_from_empty:
  "distinct xs \<Longrightarrow> selected w = [] \<Longrightarrow>
   set (selected (toggle_each xs w)) = set xs \<and>
   (distinct ys \<and> set ys = set xs \<longrightarrow>
      set (selected (toggle_each ys w)) = set (selected (toggle_each xs w)))"
  by (simp add: selected_toggle_each_fresh)

theorem toggle_each_from_empty_witness:
  "set (selected (toggle_each [Public, Sink, Vuln] initial_app)) = {Public, Sink, Vuln} \<and>
   set (selected (toggle_each [Vuln, Public, Sink] initial_app)) =
     set (selected (toggle_each [Public, Sink, Vuln] initial_app)) \<and>
   set (selected (toggle_each [Sink, Public] initial_app)) =
     set (selected (toggle_each [Public, Sink] initial_app))"
proof -
  have e: "selected initial_app = []"
    by (simp add: initial_app_def)
  have d3: "distinct [Public, Sink, Vuln]" and d2: "distinct [Public, Sink]"
    by simp_all
  show ?thesis
    using toggle_each_from_empty [OF d3 e, of "[Vuln, Public, Sink]"]
      toggle_each_from_empty [OF d2 e, of "[Sink, Public]"]
    by auto
qed

text \<open>
  C5. Two \<open>toggle\<close> calls on the same filter leave the same filters selected as before.
  One call flips the membership of that filter and of no other, keeps the selection
  repetition-free, and changes nothing else: not the graph, the loading flag, the error,
  nor the requests issued. The selection is compared as a set, by its members: when the
  filter was not selected, the whole state is the same again; when it was, it now
  iterates last in the \<open>Set\<close>.
\<close>

theorem toggle_twice:
  "set (selected (toggle f (toggle f w))) = set (selected w) \<and>
   set_has (selected (toggle f w)) f = (\<not> set_has (selected w) f) \<and>
   (g \<noteq> f \<longrightarrow> set_has (selected (toggle f w)) g = set_has (selected w) g) \<and>
   (distinct (selected w) \<longrightarrow> distinct (selected (toggle f w))) \<and>
   (\<not> set_has (selected w) f \<longrightarrow> toggle f (toggle f w) = w) \<and>
   (set_has (selected w) f \<longrightarrow>
      array_from (selected (toggle f (toggle f w))) =
        filter (\<lambda>y. y \<noteq> f) (array_from (selected w)) @ [f]) \<and>
   graph_st (toggle f w) = graph_st w \<and> loading (toggle f w) = loading w \<and>
   error (toggle f w) = error w \<and> requests (toggle f w) = requests w"
proof -
  have undo: "toggle f (toggle f w) = w" if fresh: "\<not> set_has (selected w) f"
  proof -
    have "filter (\<lambda>y. y \<noteq> f) (selected w) = selected w"
      using fresh by (auto simp: set_has_def intro: filter_True)
    then show ?thesis
      using fresh
      by (simp add: toggle_def toggle_selected_def set_has_def set_add_def set_delete_def)
  qed
  have moved: "array_from (selected (toggle f (toggle f w))) =
      filter (\<lambda>y. y \<noteq> f) (array_from (selected w)) @ [f]" if "set_has (selected w) f"
    using that
    by (simp add: toggle_selected_def set_has_def set_add_def set_delete_def array_from_def)
  have rest: "graph_st (toggle f w) = graph_st w \<and> loading (toggle f w) = loading w \<and>
      error (toggle f w) = error w \<and> requests (toggle f w) = requests w"
    by (simp add: toggle_def)
  have mem: "set (selected (toggle f (toggle f w))) = set (selected w)"
    by (auto simp: set_toggle_selected)
  show ?thesis
    using undo moved rest mem distinct_toggle_selected [of "selected w" f]
    by (auto simp: set_has_def set_toggle_selected)
qed

theorem toggle_twice_witness:
  "selected (toggle Public (toggle Public initial_app)) = selected initial_app \<and>
   set (selected (toggle Public (toggle Public (toggle_each [Public, Sink] initial_app)))) =
     {Public, Sink} \<and>
   array_from (selected (toggle Public (toggle Public (toggle_each [Public, Sink] initial_app))))
     = [Sink, Public] \<and>
   set_has (selected (toggle Sink initial_app)) Sink \<and>
   \<not> set_has (selected (toggle Sink (toggle Sink initial_app))) Sink \<and>
   set_has (selected (toggle Sink (toggle Public initial_app))) Public"
proof -
  let ?both = "toggle_each [Public, Sink] initial_app"
  have two: "selected ?both = [Public, Sink]"
    and one: "selected (toggle Public initial_app) = [Public]"
    and none: "selected initial_app = []"
    by (simp_all add: initial_app_def toggle_selected_def set_has_def set_add_def)
  have "\<not> set_has (selected initial_app) Public"
    by (simp add: none set_has_def)
  then have "toggle Public (toggle Public initial_app) = initial_app"
    using toggle_twice [of Public initial_app] by blast
  then have c1: "selected (toggle Public (toggle Public initial_app)) = selected initial_app"
    by (rule arg_cong)
  have "set (selected (toggle Public (toggle Public ?both))) = set (selected ?both)"
    using toggle_twice [of Public ?both] by blast
  then have c2: "set (selected (toggle Public (toggle Public ?both))) = {Public, Sink}"
    by (simp only: two list.set)
  have "set_has (selected ?both) Public"
    by (simp only: two set_has_def) simp
  then have "array_from (selected (toggle Public (toggle Public ?both))) =
      filter (\<lambda>y. y \<noteq> Public) (array_from (selected ?both)) @ [Public]"
    using toggle_twice [of Public ?both] by blast
  also have "\<dots> = [Sink, Public]"
    by (simp only: two array_from_def) simp
  finally have c3: "array_from (selected (toggle Public (toggle Public ?both))) = [Sink, Public]" .
  have no_sink: "\<not> set_has (selected initial_app) Sink"
    by (simp add: none set_has_def)
  have c4: "set_has (selected (toggle Sink initial_app)) Sink"
    using toggle_twice [of Sink initial_app] no_sink by blast
  have c5: "\<not> set_has (selected (toggle Sink (toggle Sink initial_app))) Sink"
    using toggle_twice [of Sink "toggle Sink initial_app"] c4 by blast
  have "set_has (selected (toggle Public initial_app)) Public"
    by (simp only: one set_has_def) simp
  moreover have "Public \<noteq> Sink"
    by simp
  ultimately have c6: "set_has (selected (toggle Sink (toggle Public initial_app))) Public"
    using toggle_twice [of Sink "toggle Public initial_app" Public] by blast
  show ?thesis
    using c1 c2 c3 c4 c5 c6 by blast
qed

text \<open>
  C6. A cycle of \<open>apply\<close> issues exactly one request. With nothing selected its URL is
  \<^verbatim>\<open>/api/intersection\<close>, with no query string; otherwise the query string is \<^verbatim>\<open>?\<close>
  followed by one \<^verbatim>\<open>options=<id>\<close> for each selected filter, in the order of the selection,
  joined by \<^verbatim>\<open>&\<close>.
\<close>

theorem apply_request_query:
  "requests (apply_cycle api w) =
     requests w @
       [''/api/intersection'' @
        (if selected w = [] then []
         else ''?'' @ join ''&'' (map (\<lambda>f. ''options='' @ filter_id_str f) (selected w)))]"
  by (simp add: apply_cycle_unfold apply_settle_def apply_pending_def request_url_def
      API_BASE_def intersection_params_filter_ids split: sum.splits)

theorem apply_request_query_witness:
  "requests (apply_cycle (constant_api (Resolved example_response)) initial_app) =
     [''/api/intersection''] \<and>
   requests (apply_cycle (constant_api (Resolved example_response))
       (toggle_each [Public, Vuln] initial_app)) =
     [''/api/intersection?options=public&options=vuln'']"
  using apply_request_query [of "constant_api (Resolved example_response)" initial_app]
    apply_request_query [of "constant_api (Resolved example_response)"
      "toggle_each [Public, Vuln] initial_app"]
  by (simp add: initial_app_def toggle_def toggle_selected_def set_has_def set_add_def)

text \<open>
  C7, as stated, fails: a response with status 200 whose body is not JSON makes
  \<open>fetchJson\<close> raise, since \<open>r.json()\<close> rejects, although the status is 2xx.
\<close>

theorem fetchJson_raises_iff_not_ok_counterexample:
  "\<not> (isl (fst (fetchJson (constant_api (Resolved html_response)) ''/api/intersection''))
        \<longleftrightarrow> \<not> ok html_response)"
  by (simp add: fetchJson_def fetch_def constant_api_def html_response_def ok_def)

text \<open>
  C7, amended. For a response \<open>r\<close>, \<open>fetchJson\<close> raises if and only if the status is
  outside 200-299 or \<open>r.json()\<close> rejects. With a status outside 200-299 the error it raises
  is an \<open>Error\<close> whose message is the body text. With a status in 200-299 it raises
  nothing for the status and settles as \<open>r.json()\<close> does: with the parsed body when the
  body parses.
\<close>

theorem fetchJson_status_rule:
  "api path = Resolved r \<Longrightarrow>
   (isl (fst (fetchJson api path)) \<longleftrightarrow> \<not> ok r \<or> isl (json r)) \<and>
   (\<not> ok r \<longrightarrow> fst (fetchJson api path) = Inl (ErrorObject (body_text r))) \<and>
   (ok r \<longrightarrow> fst (fetchJson api path) = json r) \<and>
   (ok r \<and> json r = Inr v \<longrightarrow> fst (fetchJson api path) = Inr v)"
  by (simp add: fetchJson_resolved)

theorem fetchJson_status_rule_witness:
  "fst (fetchJson (constant_api (Resolved boom_response)) ''/api/intersection'') =
     Inl (ErrorObject ''boom'') \<and>
   fst (fetchJson (constant_api (Resolved example_response)) ''/api/intersection'') =
     Inr \<lparr>options = [''public''], nodes = Some [''a'', ''b''], edges = Some [(''a'', ''b'')]\<rparr> \<and>
   isl (fst (fetchJson (constant_api (Resolved html_response)) ''/api/intersection''))"
  using fetchJson_status_rule
      [of "constant_api (Resolved boom_response)" "''/api/intersection''" boom_response]
    fetchJson_status_rule
      [of "constant_api (Resolved example_response)" "''/api/intersection''" example_response]
    fetchJson_status_rule
      [of "constant_api (Resolved html_response)" "''/api/intersection''" html_response]
  by (simp add: constant_api_def boom_response_def example_response_def html_response_def
      ok_def)

text \<open>
  C8. While the request of a cycle is in flight the loading flag is true (phase
  \<open>Loading\<close>); once the awaited promise settles, with a response or with an error, the
  flag is false (phase \<open>Idle\<close>), on whatever state the settlement acts. A whole cycle is
  the settlement applied to the state in flight, and it ends with the flag false.
\<close>

theorem apply_loading_cycle:
  "loading (apply_pending reqs w) \<and> phase_of (apply_pending reqs w) = Loading \<and>
   \<not> loading (apply_settle opts (Inr r) w') \<and> phase_of (apply_settle opts (Inr r) w') = Idle \<and>
   \<not> loading (apply_settle opts (Inl e) w') \<and> phase_of (apply_settle opts (Inl e) w') = Idle \<and>
   apply_cycle api w =
     apply_settle (selected w) (fst (fetchIntersection api (map filter_id_str (selected w))))
       (apply_pending [request_url (selected w)] w) \<and>
   \<not> loading (apply_cycle api w) \<and> phase_of (apply_cycle api w) = Idle"
proof -
  have settle: "\<not> loading (apply_settle opts res w')" for res
    by (simp add: apply_settle_def split: sum.splits)
  have cycle: "apply_cycle api w =
     apply_settle (selected w) (fst (fetchIntersection api (map filter_id_str (selected w))))
       (apply_pending [request_url (selected w)] w)"
    by (simp add: apply_cycle_unfold fetchIntersection_request_url)
  have "\<not> loading (apply_cycle api w)"
    by (simp add: apply_cycle_unfold apply_settle_def split: sum.splits)
  then show ?thesis
    using settle cycle by (simp add: phase_of_def apply_pending_def)
qed

theorem apply_loading_cycle_witness:
  "phase_of initial_app = Idle \<and>
   phase_of (apply_pending [request_url []] initial_app) = Loading \<and>
   phase_of (apply_cycle (constant_api (Resolved example_response)) initial_app) = Idle \<and>
   phase_of (apply_cycle (constant_api (Resolved boom_response)) initial_app) = Idle \<and>
   phase_of (apply_cycle (constant_api (Rejected (ErrorObject ''Failed to fetch''))) initial_app)
     = Idle"
proof -
  have i: "phase_of initial_app = Idle"
    by (simp add: phase_of_def initial_app_def)
  show ?thesis
    using i
      apply_loading_cycle [of "[request_url []]" initial_app _ _ _ _
        "constant_api (Resolved example_response)"]
      apply_loading_cycle [of "[request_url []]" initial_app _ _ _ _
        "constant_api (Resolved boom_response)"]
      apply_loading_cycle [of "[request_url []]" initial_app _ _ _ _
        "constant_api (Rejected (ErrorObject ''Failed to fetch''))"]
    by blast
qed

text \<open>
  C9, as stated, fails: a selection is a set of filters, and two states that hold the same
  filters, ticked in a different order (public then sink, sink then public), display
  different graphs against one and the same backend answer, since every node carries the
  filters in the iteration order of its selection.
\<close>

theorem apply_same_members_same_graph_counterexample:
  "\<not> (set (selected (toggle_each [Public, Sink] initial_app)) =
         set (selected (toggle_each [Sink, Public] initial_app)) \<longrightarrow>
       graph_st (apply_cycle (constant_api (Resolved example_response))
           (toggle_each [Public, Sink] initial_app)) =
       graph_st (apply_cycle (constant_api (Resolved example_response))
           (toggle_each [Sink, Public] initial_app)))"
proof -
  have a: "selected (toggle_each [Public, Sink] initial_app) = [Public, Sink]"
    and c: "selected (toggle_each [Sink, Public] initial_app) = [Sink, Public]"
    by (simp_all add: initial_app_def toggle_selected_def set_has_def set_add_def)
  have r: "fst (fetchJson (constant_api (Resolved example_response)) p) =
      Inr \<lparr>options = [''public''], nodes = Some [''a'', ''b''], edges = Some [(''a'', ''b'')]\<rparr>"
    for p
    by (simp add: fetchJson_def fetch_def constant_api_def example_response_def ok_def)
  have ga: "graph_st (apply_cycle (constant_api (Resolved example_response))
        (toggle_each [Public, Sink] initial_app)) =
      adapt \<lparr>options = [''public''], nodes = Some [''a'', ''b''],
        edges = Some [(''a'', ''b'')]\<rparr> [Public, Sink]"
    by (simp only: graph_apply_cycle a r sum.case)
  have gc: "graph_st (apply_cycle (constant_api (Resolved example_response))
        (toggle_each [Sink, Public] initial_app)) =
      adapt \<lparr>options = [''public''], nodes = Some [''a'', ''b''],
        edges = Some [(''a'', ''b'')]\<rparr> [Sink, Public]"
    by (simp only: graph_apply_cycle c r sum.case)
  have mem: "set (selected (toggle_each [Public, Sink] initial_app)) =
      set (selected (toggle_each [Sink, Public] initial_app))"
    by (simp only: a c) auto
  have differ: "graph_st (apply_cycle (constant_api (Resolved example_response))
        (toggle_each [Public, Sink] initial_app)) \<noteq>
      graph_st (apply_cycle (constant_api (Resolved example_response))
        (toggle_each [Sink, Public] initial_app))"
    by (simp only: ga gc) (simp add: adapt_def)
  show ?thesis
    using mem differ by blast
qed

text \<open>
  C9, amended. The graph that a cycle of \<open>apply\<close> displays depends on the selection, in its
  iteration order, and on the backend only. Two states whose selections hold the same
  filters in the same order display the same graph against the same backend, and a
  second cycle right after the first displays the same graph again. Two states whose
  selections hold the same filters in a different order request different URLs; when
  the backend answers both alike, the two graphs have the same links, the same node
  identifiers and the same node colours, and the group of each node has the same
  members: they differ in the order of the groups, and in nothing else.
\<close>

theorem apply_twice_same_graph:
  "(selected w1 = selected w2 \<longrightarrow>
      graph_st (apply_cycle api w1) = graph_st (apply_cycle api w2)) \<and>
   graph_st (apply_cycle api (apply_cycle api w1)) = graph_st (apply_cycle api w1) \<and>
   (distinct (selected w1) \<and> distinct (selected w2) \<and>
    set (selected w1) = set (selected w2) \<and>
    api (request_url (selected w1)) = api (request_url (selected w2)) \<longrightarrow>
      graph_links (graph_st (apply_cycle api w1)) =
        graph_links (graph_st (apply_cycle api w2)) \<and>
      map node_id (graph_nodes (graph_st (apply_cycle api w1))) =
        map node_id (graph_nodes (graph_st (apply_cycle api w2))) \<and>
      map (\<lambda>n. set (node_group n)) (graph_nodes (graph_st (apply_cycle api w1))) =
        map (\<lambda>n. set (node_group n)) (graph_nodes (graph_st (apply_cycle api w2))) \<and>
      map nodeColor (graph_nodes (graph_st (apply_cycle api w1))) =
        map nodeColor (graph_nodes (graph_st (apply_cycle api w2))))"
proof -
  have same: "graph_st (apply_cycle api w1) = graph_st (apply_cycle api w2)"
    if "selected w1 = selected w2"
    using that by (simp add: graph_apply_cycle split: sum.splits)
  have again: "graph_st (apply_cycle api (apply_cycle api w1)) = graph_st (apply_cycle api w1)"
    by (simp add: graph_apply_cycle split: sum.splits)
  have modulo: "graph_links (graph_st (apply_cycle api w1)) =
        graph_links (graph_st (apply_cycle api w2)) \<and>
      map node_id (graph_nodes (graph_st (apply_cycle api w1))) =
        map node_id (graph_nodes (graph_st (apply_cycle api w2))) \<and>
      map (\<lambda>n. set (node_group n)) (graph_nodes (graph_st (apply_cycle api w1))) =
        map (\<lambda>n. set (node_group n)) (graph_nodes (graph_st (apply_cycle api w2))) \<and>
      map nodeColor (graph_nodes (graph_st (apply_cycle api w1))) =
        map nodeColor (graph_nodes (graph_st (apply_cycle api w2)))"
    if d1: "distinct (selected w1)" and d2: "distinct (selected w2)"
      and mem: "set (selected w1) = set (selected w2)"
      and ans: "api (request_url (selected w1)) = api (request_url (selected w2))"
  proof -
    have res: "fst (fetchJson api (request_url (selected w1))) =
        fst (fetchJson api (request_url (selected w2)))"
      using ans by (rule fetchJson_same_answer)
    show ?thesis
    proof (cases "fst (fetchJson api (request_url (selected w2)))")
      case (Inl e)
      then show ?thesis
        using res by (simp add: graph_apply_cycle)
    next
      case (Inr r)
      have colour: "nodeColor \<lparr>node_id = i, node_group = selected w1\<rparr> =
          nodeColor \<lparr>node_id = i, node_group = selected w2\<rparr>" for i
        using d1 d2 mem by (rule nodeColor_same_members)
      show ?thesis
        using res Inr mem colour by (simp add: graph_apply_cycle adapt_def comp_def)
    qed
  qed
  show ?thesis
    using same again modulo by blast
qed

theorem apply_twice_same_graph_witness:
  "graph_st (apply_cycle (constant_api (Resolved example_response)) stale_app) =
     graph_st (apply_cycle (constant_api (Resolved example_response)) (toggle Public initial_app)) \<and>
   graph_st (apply_cycle (constant_api (Resolved example_response))
       (apply_cycle (constant_api (Resolved example_response)) stale_app)) =
     \<lparr>graph_nodes = [\<lparr>node_id = ''a'', node_group = [Public]\<rparr>,
                     \<lparr>node_id = ''b'', node_group = [Public]\<rparr>],
      graph_links = [\<lparr>source = ''a'', target = ''b''\<rparr>]\<rparr> \<and>
   map nodeColor (graph_nodes (graph_st (apply_cycle (constant_api (Resolved example_response))
       (toggle_each [Public, Sink] initial_app)))) =
     map nodeColor (graph_nodes (graph_st (apply_cycle (constant_api (Resolved example_response))
       (toggle_each [Sink, Public] initial_app)))) \<and>
   map node_id (graph_nodes (graph_st (apply_cycle (constant_api (Resolved example_response))
       (toggle_each [Public, Sink] initial_app)))) =
     map node_id (graph_nodes (graph_st (apply_cycle (constant_api (Resolved example_response))
       (toggle_each [Sink, Public] initial_app)))) \<and>
   graph_links (graph_st (apply_cycle (constant_api (Resolved example_response))
       (toggle_each [Public, Sink] initial_app))) =
     graph_links (graph_st (apply_cycle (constant_api (Resolved example_response))
       (toggle_each [Sink, Public] initial_app)))"
proof -
  let ?api = "constant_api (Resolved example_response)"
  let ?a = "toggle_each [Public, Sink] initial_app"
  let ?c = "toggle_each [Sink, Public] initial_app"
  have s: "selected stale_app = selected (toggle Public initial_app)"
    by (simp add: stale_app_def initial_app_def toggle_selected_def set_has_def set_add_def)
  have g: "graph_st (apply_cycle ?api stale_app) =
     \<lparr>graph_nodes = [\<lparr>node_id = ''a'', node_group = [Public]\<rparr>,
                     \<lparr>node_id = ''b'', node_group = [Public]\<rparr>],
      graph_links = [\<lparr>source = ''a'', target = ''b''\<rparr>]\<rparr>"
    by (simp add: graph_apply_cycle fetchJson_def fetch_def constant_api_def
        example_response_def ok_def adapt_def stale_app_def)
  have a: "selected ?a = [Public, Sink]" and c: "selected ?c = [Sink, Public]"
    by (simp_all add: initial_app_def toggle_selected_def set_has_def set_add_def)
  have hyp: "distinct (selected ?a) \<and> distinct (selected ?c) \<and>
      set (selected ?a) = set (selected ?c) \<and>
      ?api (request_url (selected ?a)) = ?api (request_url (selected ?c))"
    by (simp only: a c constant_api_def) auto
  have first: "graph_st (apply_cycle ?api stale_app) =
      graph_st (apply_cycle ?api (toggle Public initial_app))"
    using apply_twice_same_graph [of stale_app "toggle Public initial_app" ?api] s by blast
  have second: "graph_st (apply_cycle ?api (apply_cycle ?api stale_app)) =
      graph_st (apply_cycle ?api stale_app)"
    using apply_twice_same_graph [of stale_app stale_app ?api] by blast
  show ?thesis
    using first second g hyp apply_twice_same_graph [of ?a ?c ?api]
    by (simp only:)

qed

text \<open>
  C10. When the response of a successful request has no \<open>nodes\<close> (or no \<open>edges\<close>), the
  cycle sets no error, and the displayed nodes (or links) are the empty list; a field
  that is present is mapped as usual.
\<close>

theorem apply_missing_fields_are_empty:
  "fst (fetchIntersection api (map filter_id_str (selected w))) = Inr r \<Longrightarrow>
   error (apply_cycle api w) = None \<and>
   (nodes r = None \<longrightarrow> graph_nodes (graph_st (apply_cycle api w)) = []) \<and>
   (edges r = None \<longrightarrow> graph_links (graph_st (apply_cycle api w)) = []) \<and>
   graph_nodes (graph_st (apply_cycle api w)) =
     map (\<lambda>i. \<lparr>node_id = i, node_group = selected w\<rparr>)
       (case nodes r of None \<Rightarrow> [] | Some ns \<Rightarrow> ns) \<and>
   graph_links (graph_st (apply_cycle api w)) =
     map (\<lambda>p. \<lparr>source = fst p, target = snd p\<rparr>)
       (case edges r of None \<Rightarrow> [] | Some es \<Rightarrow> es)"
  by (simp add: error_apply_cycle graph_apply_cycle fetchIntersection_request_url adapt_def
      split_beta split: option.splits)

theorem apply_missing_fields_are_empty_witness:
  "error (apply_cycle (constant_api (Resolved partial_response)) stale_app) = None \<and>
   graph_nodes (graph_st (apply_cycle (constant_api (Resolved partial_response)) stale_app)) = [] \<and>
   graph_links (graph_st (apply_cycle (constant_api (Resolved partial_response)) stale_app)) =
     [\<lparr>source = ''a'', target = ''b''\<rparr>] \<and>
   error (apply_cycle (constant_api (Resolved nodes_only_response)) stale_app) = None \<and>
   graph_nodes (graph_st (apply_cycle (constant_api (Resolved nodes_only_response)) stale_app)) =
     [\<lparr>node_id = ''a'', node_group = [Public]\<rparr>] \<and>
   graph_links (graph_st (apply_cycle (constant_api (Resolved nodes_only_response)) stale_app)) = []"
proof -
  have f: "fst (fetchIntersection (constant_api (Resolved partial_response))
        (map filter_id_str (selected stale_app))) =
      Inr \<lparr>options = [], nodes = None, edges = Some [(''a'', ''b'')]\<rparr>"
    by (simp add: fetchIntersection_def fetchJson_def fetch_def constant_api_def
        partial_response_def ok_def)
  have g: "fst (fetchIntersection (constant_api (Resolved nodes_only_response))
        (map filter_id_str (selected stale_app))) =
      Inr \<lparr>options = [], nodes = Some [''a''], edges = None\<rparr>"
    by (simp add: fetchIntersection_def fetchJson_def fetch_def constant_api_def
        nodes_only_response_def ok_def)
  have s: "selected stale_app = [Public]"
    by (simp add: stale_app_def)
  show ?thesis
    using s apply_missing_fields_are_empty [OF f] apply_missing_fields_are_empty [OF g]
    by simp
qed

end
